theory Spec2Isabelle
  imports Main "HOL-Library.Char_ord"
begin

section \<open>Regular expressions as the program uses them\<close>

text \<open>
  The package \<^verbatim>\<open>bemailparts\<close> parses an email address into username and domain,
  reads the domain name and the TLD off the domain, and has a checking setter for each
  part. The source holds an earlier and a later version of the package; what follows is
  the later one, which anchors the TLD pattern at the end of the text, splits the domain at
  its first separator and has \<^verbatim>\<open>DomainTLDWithoutDot\<close>.

  The program compiles five patterns with Go's \<^verbatim>\<open>regexp.MustCompile\<close> and asks
  \<^verbatim>\<open>MatchString\<close> of each. The patterns use four constructs only: the assertion
  \<^verbatim>\<open>^\<close> (start of text), the assertion \<^verbatim>\<open>$\<close> (end of text; no multi-line
  flag is set), a literal byte, and \<^verbatim>\<open>[...]+\<close>, one or more bytes of a character
  class. A pattern is the sequence of its constructs.

  Strings are byte sequences. Every class and literal of the program is ASCII, so a byte
  of a multi-byte UTF-8 sequence matches no construct, as the rune it belongs to matches
  none in Go.
\<close>

datatype class_item = CharRange char char | Single char

datatype node = BeginText | EndText | Literal char | PlusClass "class_item list"

type_synonym pattern = "node list"

fun in_item :: "class_item \<Rightarrow> char \<Rightarrow> bool" where
  "in_item (CharRange lo hi) c = (lo \<le> c \<and> c \<le> hi)"
| "in_item (Single d) c = (c = d)"

definition in_class :: "class_item list \<Rightarrow> char \<Rightarrow> bool" where
  "in_class cs c = (\<exists>i \<in> set cs. in_item i c)"

text \<open>
  \<open>match_here p b s\<close>: the pattern \<open>p\<close> matches a prefix of \<open>s\<close>, where \<open>b\<close> says
  that \<open>s\<close> starts at the start of the text. \<^verbatim>\<open>[...]+\<close> tries every number of
  repetitions.
\<close>

fun match_here :: "pattern \<Rightarrow> bool \<Rightarrow> string \<Rightarrow> bool" where
  "match_here [] b s = True"
| "match_here (BeginText # r) b s = (b \<and> match_here r b s)"
| "match_here (EndText # r) b s = (s = [] \<and> match_here r b s)"
| "match_here (Literal c # r) b [] = False"
| "match_here (Literal c # r) b (x # xs) = (x = c \<and> match_here r False xs)"
| "match_here (PlusClass cs # r) b [] = False"
| "match_here (PlusClass cs # r) b (x # xs) =
     (in_class cs x \<and> (match_here (PlusClass cs # r) False xs \<or> match_here r False xs))"

text \<open>An unanchored search: a match may start at any position of the text.\<close>

fun search :: "pattern \<Rightarrow> bool \<Rightarrow> string \<Rightarrow> bool" where
  "search p b [] = match_here p b []"
| "search p b (x # xs) = (match_here p b (x # xs) \<or> search p False xs)"

definition MatchString :: "pattern \<Rightarrow> string \<Rightarrow> bool" where
  "MatchString p s = search p True s"

section \<open>The string functions of Go's library that the program calls\<close>

fun HasPrefix :: "string \<Rightarrow> string \<Rightarrow> bool" where
  "HasPrefix s [] = True"
| "HasPrefix [] (p # ps) = False"
| "HasPrefix (x # xs) (p # ps) = (x = p \<and> HasPrefix xs ps)"

definition TrimPrefix :: "string \<Rightarrow> string \<Rightarrow> string" where
  "TrimPrefix s p = (if HasPrefix s p then drop (length p) s else s)"

text \<open>\<^verbatim>\<open>strings.Index\<close>: the index of the first occurrence, or \<open>-1\<close>.\<close>

fun Index :: "string \<Rightarrow> string \<Rightarrow> int" where
  "Index [] sep = (if sep = [] then 0 else - 1)"
| "Index (x # xs) sep =
     (if HasPrefix (x # xs) sep then 0
      else if Index xs sep < 0 then - 1 else Index xs sep + 1)"

text \<open>
  \<^verbatim>\<open>strings.Split\<close>: the substrings between the occurrences of the separator. With an
  empty separator Go splits after each UTF-8 sequence; here after each byte, which is the
  same on ASCII text (the program passes \<^verbatim>\<open>"@"\<close> only).
\<close>

function Split :: "string \<Rightarrow> string \<Rightarrow> string list" where
  "Split s sep =
     (if sep = [] then map (\<lambda>c. [c]) s
      else if Index s sep < 0 then [s]
      else take (nat (Index s sep)) s # Split (drop (nat (Index s sep) + length sep) s) sep)"
  by pat_completeness auto
termination
proof (relation "measure (\<lambda>(s, sep). length s)")
  show "wf (measure (\<lambda>(s, sep). length s))" by simp
next
  fix s sep :: string
  assume sep: "sep \<noteq> []" and found: "\<not> Index s sep < 0"
  have pre: "HasPrefix t p \<Longrightarrow> length p \<le> length t" for t p :: string
    by (induction t p rule: HasPrefix.induct) auto
  have "Index t sep + int (length sep) \<le> int (length t) \<or> Index t sep < 0" for t
  proof (induction t)
    case Nil
    show ?case by simp
  next
    case (Cons x xs)
    with pre [of "x # xs" sep] show ?case by fastforce
  qed
  with sep found have "0 < length s" by (cases sep) fastforce+
  then show "((drop (nat (Index s sep) + length sep) s, sep), (s, sep))
      \<in> measure (\<lambda>(s, sep). length s)"
    using sep by simp
qed

declare Split.simps [simp del]

section \<open>Errors\<close>

text \<open>
  The five error values of \<^verbatim>\<open>errors.go\<close>, and the run-time panic of Go on an index or
  a slice bound out of range, which is no value of \<^verbatim>\<open>errors.go\<close> but is what the
  program does there.
\<close>

datatype error =
    ErrInvalidEmailFormat
  | ErrInvalidEmailUsernameFormat
  | ErrInvalidEmailDomainFormat
  | ErrInvalidEmailDomainNameFormat
  | ErrInvalidEmailDomainTLDFormat
  | PanicOutOfRange

definition index_at :: "'a list \<Rightarrow> nat \<Rightarrow> error + 'a" where
  "index_at xs i = (if i < length xs then Inr (xs ! i) else Inl PanicOutOfRange)"

text \<open>\<^verbatim>\<open>s[:i]\<close> and \<^verbatim>\<open>s[i:]\<close> on a string, with Go's bound check.\<close>

definition slice_to :: "string \<Rightarrow> int \<Rightarrow> error + string" where
  "slice_to s i =
     (if 0 \<le> i \<and> i \<le> int (length s) then Inr (take (nat i) s) else Inl PanicOutOfRange)"

definition slice_from :: "string \<Rightarrow> int \<Rightarrow> error + string" where
  "slice_from s i =
     (if 0 \<le> i \<and> i \<le> int (length s) then Inr (drop (nat i) s) else Inl PanicOutOfRange)"

section \<open>The patterns\<close>

definition emailSeparator :: string where
  "emailSeparator = ''@''"

definition domainSeparator :: string where
  "domainSeparator = ''.''"

text \<open>\<^verbatim>\<open>^[a-zA-Z0-9._%+-]+\<close>\<close>

definition usernameClass :: "class_item list" where
  "usernameClass =
     [CharRange CHR ''a'' CHR ''z'', CharRange CHR ''A'' CHR ''Z'', CharRange CHR ''0'' CHR ''9'',
      Single CHR ''.'', Single CHR ''_'', Single CHR ''%'', Single CHR ''+'', Single CHR ''-'']"

definition usernamePattern :: pattern where
  "usernamePattern = [BeginText, PlusClass usernameClass]"

text \<open>\<^verbatim>\<open>[a-zA-Z0-9.-]+\<close>\<close>

definition domainNameClass :: "class_item list" where
  "domainNameClass =
     [CharRange CHR ''a'' CHR ''z'', CharRange CHR ''A'' CHR ''Z'', CharRange CHR ''0'' CHR ''9'',
      Single CHR ''.'', Single CHR ''-'']"

definition domainNamePattern :: pattern where
  "domainNamePattern = [PlusClass domainNameClass]"

text \<open>\<^verbatim>\<open>[a-zA-Z]+$\<close>\<close>

definition domainTLDClass :: "class_item list" where
  "domainTLDClass = [CharRange CHR ''a'' CHR ''z'', CharRange CHR ''A'' CHR ''Z'']"

definition domainTLDPattern :: pattern where
  "domainTLDPattern = [PlusClass domainTLDClass, EndText]"

text \<open>The pattern strings are concatenated; \<^verbatim>\<open>\.\<close> and \<^verbatim>\<open>@\<close> are literals.\<close>

definition domainPattern :: pattern where
  "domainPattern = domainNamePattern @ map Literal domainSeparator @ domainTLDPattern"

definition emailPattern :: pattern where
  "emailPattern = usernamePattern @ map Literal emailSeparator @ domainPattern"

definition usernameRegex :: pattern where
  "usernameRegex = usernamePattern"

definition domainNameRegex :: pattern where
  "domainNameRegex = domainNamePattern"

definition domainTLDRegex :: pattern where
  "domainTLDRegex = domainTLDPattern"

definition domainRegex :: pattern where
  "domainRegex = domainPattern"

definition emailRegex :: pattern where
  "emailRegex = emailPattern"

section \<open>The value and its constructors\<close>

record bEmailParts =
  username :: string
  domain :: string

definition generateEmail :: "string \<Rightarrow> string \<Rightarrow> string" where
  "generateEmail u d = u @ emailSeparator @ d"

definition generateDomain :: "string \<Rightarrow> string \<Rightarrow> string" where
  "generateDomain domainName domainTLD =
     domainName @ (if \<not> HasPrefix domainTLD domainSeparator
                   then domainSeparator @ domainTLD else domainTLD)"

definition New :: "string \<Rightarrow> error + bEmailParts" where
  "New email =
     (if \<not> MatchString emailRegex email then Inl ErrInvalidEmailFormat
      else (case index_at (Split email emailSeparator) 0 of
              Inl err \<Rightarrow> Inl err
            | Inr u \<Rightarrow>
                (case index_at (Split email emailSeparator) 1 of
                   Inl err \<Rightarrow> Inl err
                 | Inr d \<Rightarrow> Inr \<lparr>username = u, domain = d\<rparr>)))"

definition NewFromUsernameAndDomain :: "string \<Rightarrow> string \<Rightarrow> error + bEmailParts" where
  "NewFromUsernameAndDomain u d =
     (if \<not> MatchString usernameRegex u then Inl ErrInvalidEmailUsernameFormat
      else if \<not> MatchString domainRegex d then Inl ErrInvalidEmailDomainFormat
      else New (generateEmail u d))"

definition NewFromFullParts :: "string \<Rightarrow> string \<Rightarrow> string \<Rightarrow> error + bEmailParts" where
  "NewFromFullParts u domainName domainTLD =
     (if \<not> MatchString domainNameRegex domainName then Inl ErrInvalidEmailDomainNameFormat
      else if \<not> MatchString domainTLDRegex domainTLD then Inl ErrInvalidEmailDomainTLDFormat
      else NewFromUsernameAndDomain u (generateDomain domainName domainTLD))"

section \<open>Accessors\<close>

definition Email :: "bEmailParts \<Rightarrow> string" where
  "Email e = generateEmail (username e) (domain e)"

definition Username :: "bEmailParts \<Rightarrow> string" where
  "Username e = username e"

definition Domain :: "bEmailParts \<Rightarrow> string" where
  "Domain e = domain e"

definition DomainName :: "bEmailParts \<Rightarrow> error + string" where
  "DomainName e = slice_to (domain e) (Index (domain e) domainSeparator)"

definition DomainTLD :: "bEmailParts \<Rightarrow> error + string" where
  "DomainTLD e = slice_from (domain e) (Index (domain e) domainSeparator)"

definition DomainTLDWithoutDot :: "bEmailParts \<Rightarrow> error + string" where
  "DomainTLDWithoutDot e =
     (case DomainTLD e of Inl err \<Rightarrow> Inl err | Inr t \<Rightarrow> Inr (TrimPrefix t domainSeparator))"

definition String :: "bEmailParts \<Rightarrow> string" where
  "String e = Email e"

section \<open>Setters\<close>

text \<open>
  A setter has a pointer receiver and returns an error: here it takes the value and
  returns the error (\<open>None\<close> for \<^verbatim>\<open>nil\<close>) with the value afterwards. A panic happens
  before the assignment, so it leaves the value as it was.
\<close>

definition SetUsername :: "string \<Rightarrow> bEmailParts \<Rightarrow> error option \<times> bEmailParts" where
  "SetUsername v e =
     (if \<not> MatchString usernameRegex v then (Some ErrInvalidEmailUsernameFormat, e)
      else (None, e\<lparr>username := v\<rparr>))"

definition SetDomain :: "string \<Rightarrow> bEmailParts \<Rightarrow> error option \<times> bEmailParts" where
  "SetDomain v e =
     (if \<not> MatchString domainRegex v then (Some ErrInvalidEmailDomainFormat, e)
      else (None, e\<lparr>domain := v\<rparr>))"

definition SetDomainName :: "string \<Rightarrow> bEmailParts \<Rightarrow> error option \<times> bEmailParts" where
  "SetDomainName v e =
     (if \<not> MatchString domainNameRegex v then (Some ErrInvalidEmailDomainNameFormat, e)
      else (case DomainTLD e of
              Inl err \<Rightarrow> (Some err, e)
            | Inr t \<Rightarrow> (None, e\<lparr>domain := generateDomain v t\<rparr>)))"

definition SetDomainTLD :: "string \<Rightarrow> bEmailParts \<Rightarrow> error option \<times> bEmailParts" where
  "SetDomainTLD v e =
     (if \<not> MatchString domainTLDRegex v then (Some ErrInvalidEmailDomainTLDFormat, e)
      else (case DomainName e of
              Inl err \<Rightarrow> (Some err, e)
            | Inr n \<Rightarrow> (None, e\<lparr>domain := generateDomain n v\<rparr>)))"

section \<open>Calls\<close>

text \<open>
  A use of the package is one constructor call and then setter calls in any number and
  order. A setter that returns an error leaves the value usable, so the next call runs on
  the value as the setter left it.
\<close>

datatype constructor_call =
    CallNew string
  | CallNewFromUsernameAndDomain string string
  | CallNewFromFullParts string string string

datatype setter_call =
    CallSetUsername string
  | CallSetDomain string
  | CallSetDomainName string
  | CallSetDomainTLD string

fun construct :: "constructor_call \<Rightarrow> error + bEmailParts" where
  "construct (CallNew s) = New s"
| "construct (CallNewFromUsernameAndDomain u d) = NewFromUsernameAndDomain u d"
| "construct (CallNewFromFullParts u n t) = NewFromFullParts u n t"

fun apply_setter :: "setter_call \<Rightarrow> bEmailParts \<Rightarrow> error option \<times> bEmailParts" where
  "apply_setter (CallSetUsername v) e = SetUsername v e"
| "apply_setter (CallSetDomain v) e = SetDomain v e"
| "apply_setter (CallSetDomainName v) e = SetDomainName v e"
| "apply_setter (CallSetDomainTLD v) e = SetDomainTLD v e"

fun run_setters :: "setter_call list \<Rightarrow> bEmailParts \<Rightarrow> bEmailParts" where
  "run_setters [] e = e"
| "run_setters (c # cs) e = run_setters cs (snd (apply_setter c e))"

text \<open>The six reads of a value, side by side.\<close>

definition accessors ::
  "bEmailParts \<Rightarrow> string \<times> string \<times> string \<times> (error + string) \<times> (error + string) \<times> (error + string)"
where
  "accessors e =
     (Email e, Username e, Domain e, DomainName e, DomainTLD e, DomainTLDWithoutDot e)"

section \<open>What the matcher accepts\<close>

lemma match_plus:
  "match_here (PlusClass cs # r) b s \<longleftrightarrow>
     (\<exists>u v. s = u @ v \<and> u \<noteq> [] \<and> (\<forall>c \<in> set u. in_class cs c) \<and> match_here r False v)"
proof (induction s arbitrary: b)
  case Nil
  show ?case by simp
next
  case (Cons x xs)
  show ?case (is "?L = ?R")
  proof
    assume ?L
    then have x: "in_class cs x"
      and rest: "match_here (PlusClass cs # r) False xs \<or> match_here r False xs"
      by simp_all
    from rest show ?R
    proof
      assume "match_here (PlusClass cs # r) False xs"
      with Cons.IH obtain u v where "xs = u @ v" "\<forall>c \<in> set u. in_class cs c" "match_here r False v"
        by blast
      with x have "x # xs = (x # u) @ v \<and> x # u \<noteq> [] \<and> (\<forall>c \<in> set (x # u). in_class cs c)
          \<and> match_here r False v" by simp
      then show ?R by blast
    next
      assume "match_here r False xs"
      with x have "x # xs = [x] @ xs \<and> [x] \<noteq> [] \<and> (\<forall>c \<in> set [x]. in_class cs c)
          \<and> match_here r False xs" by simp
      then show ?R by blast
    qed
  next
    assume ?R
    then obtain u v where s: "x # xs = u @ v" and u: "u \<noteq> []"
      and cls: "\<forall>c \<in> set u. in_class cs c" and m: "match_here r False v" by blast
    from s u obtain u' where u': "u = x # u'" and xs: "xs = u' @ v"
      by (cases u) auto
    show ?L
    proof (cases "u' = []")
      case True
      with xs m cls u' show ?thesis by simp
    next
      case False
      with xs m cls u' have "match_here (PlusClass cs # r) False xs"
        using Cons.IH [of False] by auto
      with cls u' show ?thesis by simp
    qed
  qed
qed

lemma search_iff:
  "search p b s \<longleftrightarrow>
     match_here p b s \<or> (\<exists>pre suf. s = pre @ suf \<and> pre \<noteq> [] \<and> match_here p False suf)"
proof (induction s arbitrary: b)
  case Nil
  show ?case by simp
next
  case (Cons x xs)
  have "(\<exists>pre suf. x # xs = pre @ suf \<and> pre \<noteq> [] \<and> match_here p False suf) \<longleftrightarrow>
        match_here p False xs \<or> (\<exists>pre suf. xs = pre @ suf \<and> pre \<noteq> [] \<and> match_here p False suf)"
    (is "?A = (?B \<or> ?C)")
  proof
    assume ?A
    then obtain pre suf where s: "x # xs = pre @ suf" and p: "pre \<noteq> []"
      and m: "match_here p False suf" by blast
    from s p obtain pre' where "pre = x # pre'" "xs = pre' @ suf" by (cases pre) auto
    with m show "?B \<or> ?C" by (cases "pre' = []") auto
  next
    assume "?B \<or> ?C"
    then show ?A
    proof
      assume ?B
      then have "x # xs = [x] @ xs \<and> [x] \<noteq> [] \<and> match_here p False xs" by simp
      then show ?A by blast
    next
      assume ?C
      then obtain pre suf where "xs = pre @ suf" "match_here p False suf" by blast
      then have "x # xs = (x # pre) @ suf \<and> x # pre \<noteq> [] \<and> match_here p False suf" by simp
      then show ?A by blast
    qed
  qed
  with Cons.IH [of False] show ?case by simp
qed

lemma MatchString_anchored: "MatchString (BeginText # r) s = match_here r True s"
  by (simp add: MatchString_def search_iff)

lemma username_iff:
  "MatchString usernameRegex s \<longleftrightarrow> (\<exists>x xs. s = x # xs \<and> in_class usernameClass x)"
  by (cases s) (auto simp: usernameRegex_def usernamePattern_def MatchString_anchored)

lemma domainName_iff:
  "MatchString domainNameRegex s \<longleftrightarrow> (\<exists>c \<in> set s. in_class domainNameClass c)"
proof -
  have "search [PlusClass cs] b s \<longleftrightarrow> (\<exists>c \<in> set s. in_class cs c)" for cs b
    by (induction s arbitrary: b) auto
  then show ?thesis
    by (simp add: MatchString_def domainNameRegex_def domainNamePattern_def)
qed

lemma match_tld:
  "match_here [PlusClass cs, EndText] b s \<longleftrightarrow> s \<noteq> [] \<and> (\<forall>c \<in> set s. in_class cs c)"
  by (induction s arbitrary: b) auto

lemma domainTLD_iff:
  "MatchString domainTLDRegex s \<longleftrightarrow> s \<noteq> [] \<and> in_class domainTLDClass (last s)"
proof -
  have "search [PlusClass cs, EndText] b s \<longleftrightarrow> s \<noteq> [] \<and> in_class cs (last s)" for cs b
  proof (induction s arbitrary: b)
    case Nil
    show ?case by simp
  next
    case (Cons x xs)
    then show ?case by (cases xs) (auto simp: match_tld simp del: match_here.simps)
  qed
  then show ?thesis
    by (simp add: MatchString_def domainTLDRegex_def domainTLDPattern_def)
qed

lemma match_domain:
  "match_here domainPattern b s \<longleftrightarrow>
     (\<exists>d t. s = d @ ''.'' @ t \<and> d \<noteq> [] \<and> (\<forall>c \<in> set d. in_class domainNameClass c)
        \<and> t \<noteq> [] \<and> (\<forall>c \<in> set t. in_class domainTLDClass c))"
proof -
  have lit: "match_here (Literal c # r) b' v \<longleftrightarrow> (\<exists>w. v = c # w \<and> match_here r False w)"
    for c r b' v by (cases v) auto
  show ?thesis
    unfolding domainPattern_def domainNamePattern_def domainTLDPattern_def domainSeparator_def
    by (simp add: match_plus [of domainNameClass] lit match_tld del: match_here.simps) blast
qed

lemma domain_iff:
  "MatchString domainRegex s \<longleftrightarrow>
     (\<exists>p d t. s = p @ d @ ''.'' @ t \<and> d \<noteq> [] \<and> (\<forall>c \<in> set d. in_class domainNameClass c)
        \<and> t \<noteq> [] \<and> (\<forall>c \<in> set t. in_class domainTLDClass c))"
  (is "?L = ?R")
proof
  assume ?L
  then have "match_here domainPattern True s \<or>
      (\<exists>pre suf. s = pre @ suf \<and> pre \<noteq> [] \<and> match_here domainPattern False suf)"
    by (simp add: MatchString_def domainRegex_def search_iff)
  then show ?R
  proof
    assume "match_here domainPattern True s"
    then obtain d t where "s = [] @ d @ ''.'' @ t \<and> d \<noteq> [] \<and> (\<forall>c \<in> set d. in_class domainNameClass c)
        \<and> t \<noteq> [] \<and> (\<forall>c \<in> set t. in_class domainTLDClass c)"
      unfolding match_domain by auto
    then show ?R by blast
  next
    assume "\<exists>pre suf. s = pre @ suf \<and> pre \<noteq> [] \<and> match_here domainPattern False suf"
    then show ?R unfolding match_domain by blast
  qed
next
  assume ?R
  then obtain p d t where s: "s = p @ d @ ''.'' @ t" and rest: "d \<noteq> []"
    "\<forall>c \<in> set d. in_class domainNameClass c" "t \<noteq> []" "\<forall>c \<in> set t. in_class domainTLDClass c"
    by blast
  then have m: "match_here domainPattern b (d @ ''.'' @ t)" for b
    unfolding match_domain by blast
  show ?L
  proof (cases "p = []")
    case True
    with s m show ?thesis by (simp add: MatchString_def domainRegex_def search_iff)
  next
    case False
    with s m [of False] show ?thesis
      unfolding MatchString_def domainRegex_def search_iff by blast
  qed
qed

lemma email_iff:
  "MatchString emailRegex s \<longleftrightarrow>
     (\<exists>u d t. s = u @ ''@'' @ d @ ''.'' @ t
        \<and> u \<noteq> [] \<and> (\<forall>c \<in> set u. in_class usernameClass c)
        \<and> d \<noteq> [] \<and> (\<forall>c \<in> set d. in_class domainNameClass c)
        \<and> t \<noteq> [] \<and> (\<forall>c \<in> set t. in_class domainTLDClass c))"
proof -
  have lit: "match_here (Literal c # r) b' v \<longleftrightarrow> (\<exists>w. v = c # w \<and> match_here r False w)"
    for c r b' v by (cases v) auto
  have "MatchString emailRegex s \<longleftrightarrow>
      match_here (PlusClass usernameClass # Literal CHR ''@'' # domainPattern) True s"
    by (simp add: emailRegex_def emailPattern_def usernamePattern_def emailSeparator_def
        MatchString_anchored del: match_here.simps)
  also have "\<dots> \<longleftrightarrow> (\<exists>u v. s = u @ CHR ''@'' # v \<and> u \<noteq> [] \<and> (\<forall>c \<in> set u. in_class usernameClass c)
       \<and> match_here domainPattern False v)"
    unfolding match_plus [of usernameClass] lit by blast
  finally show ?thesis
    unfolding match_domain by (simp del: match_here.simps) blast
qed

section \<open>Index and Split on a one-byte separator\<close>

lemma Index_absent: "c \<notin> set s \<Longrightarrow> Index s [c] = - 1"
  by (induction s) auto

lemma Index_first: "c \<notin> set u \<Longrightarrow> Index (u @ c # v) [c] = int (length u)"
  by (induction u) auto

lemma Index_present: "c \<in> set s \<Longrightarrow> 0 \<le> Index s [c] \<and> Index s [c] < int (length s)"
  by (induction s) auto

lemma Split_absent: "c \<notin> set s \<Longrightarrow> Split s [c] = [s]"
  by (simp add: Split.simps [of s] Index_absent)

lemma Split_first: "c \<notin> set u \<Longrightarrow> Split (u @ c # v) [c] = u # Split v [c]"
  by (simp add: Split.simps [of "u @ c # v"] Index_first)

lemma username_no_at: "in_class usernameClass c \<Longrightarrow> c \<noteq> CHR ''@''"
  by (auto simp: in_class_def usernameClass_def)

lemma domainName_no_at: "in_class domainNameClass c \<Longrightarrow> c \<noteq> CHR ''@''"
  by (auto simp: in_class_def domainNameClass_def)

lemma domainTLD_no_at: "in_class domainTLDClass c \<Longrightarrow> c \<noteq> CHR ''@''"
  by (auto simp: in_class_def domainTLDClass_def)

lemma New_of_match:
  assumes "MatchString emailRegex s"
  shows "\<exists>u d. s = u @ ''@'' @ d \<and> CHR ''@'' \<notin> set u \<and> CHR ''@'' \<notin> set d
           \<and> CHR ''.'' \<in> set d \<and> New s = Inr \<lparr>username = u, domain = d\<rparr>"
proof -
  from assms obtain u d t where s: "s = u @ ''@'' @ d @ ''.'' @ t"
    and u: "\<forall>c \<in> set u. in_class usernameClass c"
    and d: "\<forall>c \<in> set d. in_class domainNameClass c"
    and t: "\<forall>c \<in> set t. in_class domainTLDClass c"
    unfolding email_iff by blast
  from u have nu: "CHR ''@'' \<notin> set u" using username_no_at by blast
  from d t have nd: "CHR ''@'' \<notin> set (d @ ''.'' @ t)"
    using domainName_no_at domainTLD_no_at by auto
  have "Split s emailSeparator = [u, d @ ''.'' @ t]"
    using Split_first [OF nu, of "d @ ''.'' @ t"] Split_absent [OF nd]
    by (simp add: s emailSeparator_def)
  with assms have "New s = Inr \<lparr>username = u, domain = d @ ''.'' @ t\<rparr>"
    by (simp add: New_def index_at_def)
  with s nu nd show ?thesis by auto
qed

lemma New_success:
  assumes "New s = Inr e"
  shows "MatchString emailRegex s \<and> s = username e @ ''@'' @ domain e"
proof -
  from assms have m: "MatchString emailRegex s"
    by (auto simp: New_def split: if_splits)
  from New_of_match [OF m] assms show ?thesis using m by auto
qed


section \<open>The domain keeps its separator\<close>

lemma HasPrefix_dot: "HasPrefix t ''.'' \<longleftrightarrow> take 1 t = ''.''"
  by (cases t) auto

lemma generateDomain_eq:
  "generateDomain n t = n @ (if take 1 t = ''.'' then t else ''.'' @ t)"
  by (simp add: generateDomain_def domainSeparator_def HasPrefix_dot)

lemma generateDomain_has_dot: "CHR ''.'' \<in> set (generateDomain n t)"
proof (cases "take 1 t = ''.''")
  case True
  then have "CHR ''.'' \<in> set (take 1 t)" by simp
  then have "CHR ''.'' \<in> set t" by (rule in_set_takeD)
  with True show ?thesis by (simp add: generateDomain_eq)
next
  case False
  then show ?thesis by (simp add: generateDomain_eq)
qed

lemma Index_split:
  assumes "c \<in> set s"
  shows "Index s [c] = int (length (takeWhile (\<lambda>x. x \<noteq> c) s))"
proof -
  from assms obtain u v where s: "s = u @ c # v" and u: "c \<notin> set u"
    by (meson split_list_first)
  from u have "takeWhile (\<lambda>x. x \<noteq> c) s = u" unfolding s by (induction u) auto
  with Index_first [OF u, of v] s show ?thesis by simp
qed

lemma accessors_of_dot:
  assumes "CHR ''.'' \<in> set (domain e)"
  shows "DomainName e = Inr (takeWhile (\<lambda>x. x \<noteq> CHR ''.'') (domain e))"
    and "DomainTLD e = Inr (dropWhile (\<lambda>x. x \<noteq> CHR ''.'') (domain e))"
    and "DomainTLDWithoutDot e = Inr (tl (dropWhile (\<lambda>x. x \<noteq> CHR ''.'') (domain e)))"
    and "hd (dropWhile (\<lambda>x. x \<noteq> CHR ''.'') (domain e)) = CHR ''.''"
    and "dropWhile (\<lambda>x. x \<noteq> CHR ''.'') (domain e) \<noteq> []"
proof -
  let ?p = "\<lambda>x. x \<noteq> CHR ''.''"
  let ?d = "domain e"
  have i: "Index ?d domainSeparator = int (length (takeWhile ?p ?d))"
    using Index_split [OF assms] by (simp add: domainSeparator_def)
  have le: "length (takeWhile ?p ?d) \<le> length ?d" by (rule length_takeWhile_le)
  have tk: "take (length (takeWhile ?p ?d)) ?d = takeWhile ?p ?d"
    by (simp add: takeWhile_eq_take [symmetric])
  have dr: "drop (length (takeWhile ?p ?d)) ?d = dropWhile ?p ?d"
    by (simp add: dropWhile_eq_drop [symmetric])
  show "DomainName e = Inr (takeWhile ?p ?d)"
    using le by (simp add: DomainName_def slice_to_def i tk)
  show tld: "DomainTLD e = Inr (dropWhile ?p ?d)"
    using le by (simp add: DomainTLD_def slice_from_def i dr)
  from assms show ne: "dropWhile ?p ?d \<noteq> []" by (simp add: dropWhile_eq_Nil_conv)
  then show h: "hd (dropWhile ?p ?d) = CHR ''.''"
    using hd_dropWhile [of ?p ?d] by simp
  from ne h obtain r where "dropWhile ?p ?d = CHR ''.'' # r"
    by (cases "dropWhile ?p ?d") auto
  then show "DomainTLDWithoutDot e = Inr (tl (dropWhile ?p ?d))"
    by (simp add: DomainTLDWithoutDot_def tld TrimPrefix_def domainSeparator_def)
qed

lemma domain_match_has_dot: "MatchString domainRegex v \<Longrightarrow> CHR ''.'' \<in> set v"
  unfolding domain_iff by auto

lemma setter_keeps_dot:
  assumes "CHR ''.'' \<in> set (domain e)"
  shows "CHR ''.'' \<in> set (domain (snd (apply_setter c e)))"
proof (cases c)
  case (CallSetUsername v)
  with assms show ?thesis by (simp add: SetUsername_def)
next
  case (CallSetDomain v)
  with assms show ?thesis by (simp add: SetDomain_def domain_match_has_dot)
next
  case (CallSetDomainName v)
  with assms show ?thesis
    by (simp add: SetDomainName_def accessors_of_dot(2) generateDomain_has_dot)
next
  case (CallSetDomainTLD v)
  with assms show ?thesis
    by (simp add: SetDomainTLD_def accessors_of_dot(1) generateDomain_has_dot)
qed

lemma construct_New:
  assumes "construct k = Inr e"
  shows "New (Email e) = Inr e"
proof -
  have n: "New s = Inr e \<Longrightarrow> New (Email e) = Inr e" for s
    using New_success [of s e] by (simp add: Email_def generateEmail_def emailSeparator_def)
  show ?thesis
  proof (cases k)
    case (CallNew s)
    with assms n show ?thesis by simp
  next
    case (CallNewFromUsernameAndDomain u d)
    with assms have "New (generateEmail u d) = Inr e"
      by (simp add: NewFromUsernameAndDomain_def split: if_splits)
    with n show ?thesis .
  next
    case (CallNewFromFullParts u dn t)
    with assms have "New (generateEmail u (generateDomain dn t)) = Inr e"
      by (simp add: NewFromFullParts_def NewFromUsernameAndDomain_def split: if_splits)
    with n show ?thesis .
  qed
qed

lemma construct_has_dot:
  assumes "construct k = Inr e"
  shows "CHR ''.'' \<in> set (domain e)"
proof -
  from construct_New [OF assms] have "MatchString emailRegex (Email e)"
    using New_success by blast
  from New_of_match [OF this] construct_New [OF assms] show ?thesis by auto
qed

lemma run_setters_keep_dot:
  "CHR ''.'' \<in> set (domain e) \<Longrightarrow> CHR ''.'' \<in> set (domain (run_setters cs e))"
  by (induction cs arbitrary: e) (simp_all add: setter_keeps_dot)

lemma reachable_has_dot:
  "construct k = Inr e0 \<Longrightarrow> CHR ''.'' \<in> set (domain (run_setters cs e0))"
  by (simp add: construct_has_dot run_setters_keep_dot)

lemma Email_eq: "Email e = Username e @ ''@'' @ Domain e"
  by (simp add: Email_def Username_def Domain_def generateEmail_def emailSeparator_def)

lemma append_sep_unique:
  assumes "u @ c # d = u' @ c # d'" and "c \<notin> set u" and "c \<notin> set u'"
  shows "u = u' \<and> d = d'"
  using assms
proof (induction u arbitrary: u')
  case Nil
  then show ?case by (cases u') auto
next
  case (Cons x xs)
  then show ?case by (cases u') auto
qed

text \<open>
  A value that matches the full pattern is the value \<open>New\<close> builds from its own
  address, so what holds of every constructed value holds of every such value.
\<close>

lemma matching_value_constructed:
  assumes "MatchString emailRegex (Email e)"
  shows "construct (CallNew (Email e)) = Inr e"
proof -
  from New_of_match [OF assms] obtain u d where eq: "Email e = u @ ''@'' @ d"
    and u: "CHR ''@'' \<notin> set u" and d: "CHR ''@'' \<notin> set d"
    and new: "New (Email e) = Inr \<lparr>username = u, domain = d\<rparr>"
    by blast
  from eq have cat: "username e @ CHR ''@'' # domain e = u @ CHR ''@'' # d"
    by (simp add: Email_def generateEmail_def emailSeparator_def)
  have "CHR ''@'' \<notin> set (username e)"
  proof
    assume "CHR ''@'' \<in> set (username e)"
    then obtain a b where ab: "username e = a @ CHR ''@'' # b" and a: "CHR ''@'' \<notin> set a"
      by (meson split_list_first)
    with cat have "a @ CHR ''@'' # (b @ CHR ''@'' # domain e) = u @ CHR ''@'' # d" by simp
    from append_sep_unique [OF this a u] have "d = b @ CHR ''@'' # domain e" by simp
    with d show False by simp
  qed
  from append_sep_unique [OF cat this u] have "username e = u \<and> domain e = d" .
  with new show ?thesis by simp
qed



section \<open>The claims\<close>

text \<open>
  C1. After a successful constructor call and any setter calls, the stored username
  matches the username pattern, the stored domain matches the domain pattern, and
  username, \<^verbatim>\<open>@\<close> and domain together match the full email pattern.

  The setters do not keep this. \<open>SetUsername\<close> accepts \<^verbatim>\<open>a!\<close>, whose first byte alone
  the username pattern looks at, and the address becomes \<^verbatim>\<open>a!@b.com\<close>, which the full
  pattern refuses; \<open>SetDomainName\<close> accepts \<^verbatim>\<open>b!\<close> and the domain becomes
  \<^verbatim>\<open>b!.com\<close>, which the domain pattern refuses. The constructors from parts refuse
  the same parts, since they end in \<open>New\<close>.
\<close>

theorem setters_break_grammar:
  "New ''a@b.com'' = Inr \<lparr>username = ''a'', domain = ''b.com''\<rparr> \<and>
   SetUsername ''a!'' \<lparr>username = ''a'', domain = ''b.com''\<rparr>
     = (None, \<lparr>username = ''a!'', domain = ''b.com''\<rparr>) \<and>
   \<not> MatchString emailRegex (Email \<lparr>username = ''a!'', domain = ''b.com''\<rparr>) \<and>
   NewFromUsernameAndDomain ''a!'' ''b.com'' = Inl ErrInvalidEmailFormat \<and>
   SetDomainName ''b!'' \<lparr>username = ''a'', domain = ''b.com''\<rparr>
     = (None, \<lparr>username = ''a'', domain = ''b!.com''\<rparr>) \<and>
   \<not> MatchString domainRegex (Domain \<lparr>username = ''a'', domain = ''b!.com''\<rparr>) \<and>
   \<not> MatchString emailRegex (Email \<lparr>username = ''a'', domain = ''b!.com''\<rparr>) \<and>
   NewFromFullParts ''a'' ''b!'' ''com'' = Inl ErrInvalidEmailDomainFormat"
  by code_simp

text \<open>
  C2. For every string that matches the full email pattern, \<open>New\<close> succeeds and the
  address of the value it returns is that string.
\<close>

theorem New_roundtrip:
  "MatchString emailRegex s \<Longrightarrow> (\<exists>e. New s = Inr e \<and> Email e = s)"
  using New_of_match [of s] by (auto simp: Email_def generateEmail_def emailSeparator_def)

theorem New_roundtrip_witness:
  "MatchString emailRegex ''john.doe@example.com'' \<and>
   (\<exists>e. New ''john.doe@example.com'' = Inr e \<and> Email e = ''john.doe@example.com'')"
proof -
  have m: "MatchString emailRegex ''john.doe@example.com''"
    by code_simp
  with New_roundtrip [OF m] show ?thesis by simp
qed

text \<open>
  C3. A setter whose check refuses the argument returns the error of that setter and
  leaves the value as it was, so that each of the six reads returns what it returned
  before the call.
\<close>

theorem rejected_setter_keeps_state:
  "(\<not> MatchString usernameRegex v \<longrightarrow>
      fst (SetUsername v e) = Some ErrInvalidEmailUsernameFormat \<and>
      snd (SetUsername v e) = e \<and>
      accessors (snd (SetUsername v e)) = accessors e) \<and>
   (\<not> MatchString domainRegex v \<longrightarrow>
      fst (SetDomain v e) = Some ErrInvalidEmailDomainFormat \<and>
      snd (SetDomain v e) = e \<and>
      accessors (snd (SetDomain v e)) = accessors e) \<and>
   (\<not> MatchString domainNameRegex v \<longrightarrow>
      fst (SetDomainName v e) = Some ErrInvalidEmailDomainNameFormat \<and>
      snd (SetDomainName v e) = e \<and>
      accessors (snd (SetDomainName v e)) = accessors e) \<and>
   (\<not> MatchString domainTLDRegex v \<longrightarrow>
      fst (SetDomainTLD v e) = Some ErrInvalidEmailDomainTLDFormat \<and>
      snd (SetDomainTLD v e) = e \<and>
      accessors (snd (SetDomainTLD v e)) = accessors e)"
  by (simp add: SetUsername_def SetDomain_def SetDomainName_def SetDomainTLD_def)

theorem rejected_setter_keeps_state_witness:
  "\<not> MatchString usernameRegex ''!@#@%$!@%'' \<and>
   \<not> MatchString domainRegex ''!@#@%$!@%'' \<and>
   \<not> MatchString domainNameRegex ''!@#@%$!@%'' \<and>
   \<not> MatchString domainTLDRegex ''!@#@%$!@%'' \<and>
   SetUsername ''!@#@%$!@%'' \<lparr>username = ''john.doe'', domain = ''example.com''\<rparr>
     = (Some ErrInvalidEmailUsernameFormat, \<lparr>username = ''john.doe'', domain = ''example.com''\<rparr>) \<and>
   SetDomain ''!@#@%$!@%'' \<lparr>username = ''john.doe'', domain = ''example.com''\<rparr>
     = (Some ErrInvalidEmailDomainFormat, \<lparr>username = ''john.doe'', domain = ''example.com''\<rparr>) \<and>
   SetDomainName ''!@#@%$!@%'' \<lparr>username = ''john.doe'', domain = ''example.com''\<rparr>
     = (Some ErrInvalidEmailDomainNameFormat, \<lparr>username = ''john.doe'', domain = ''example.com''\<rparr>) \<and>
   SetDomainTLD ''!@#@%$!@%'' \<lparr>username = ''john.doe'', domain = ''example.com''\<rparr>
     = (Some ErrInvalidEmailDomainTLDFormat, \<lparr>username = ''john.doe'', domain = ''example.com''\<rparr>)"
proof -
  have bad: "\<not> MatchString usernameRegex ''!@#@%$!@%'' \<and>
      \<not> MatchString domainRegex ''!@#@%$!@%'' \<and>
      \<not> MatchString domainNameRegex ''!@#@%$!@%'' \<and>
      \<not> MatchString domainTLDRegex ''!@#@%$!@%''"
    by code_simp
  with rejected_setter_keeps_state
    [of "''!@#@%$!@%''" "\<lparr>username = ''john.doe'', domain = ''example.com''\<rparr>"]
  show ?thesis by (simp add: prod_eq_iff)
qed

text \<open>
  C4. For every value that a constructor and setters produce, \<open>DomainName\<close> is the
  part of the domain before its first \<^verbatim>\<open>.\<close> and \<open>DomainTLD\<close> the part from
  that \<^verbatim>\<open>.\<close> on; the address is username, \<^verbatim>\<open>@\<close> and domain; the domain is
  \<open>DomainName\<close> and \<open>DomainTLD\<close> joined; \<open>DomainTLD\<close> is \<^verbatim>\<open>.\<close> and
  \<open>DomainTLDWithoutDot\<close> joined. The value built from \<^verbatim>\<open>a@b.co.id\<close> has
  \<open>DomainName\<close> \<^verbatim>\<open>b\<close>, \<open>DomainTLD\<close> \<^verbatim>\<open>.co.id\<close> and
  \<open>DomainTLDWithoutDot\<close> \<^verbatim>\<open>co.id\<close>.
\<close>

theorem decomposition:
  "(construct k = Inr e0 \<longrightarrow> e = run_setters cs e0 \<longrightarrow>
      (\<exists>n t w. DomainName e = Inr n \<and> DomainTLD e = Inr t \<and> DomainTLDWithoutDot e = Inr w \<and>
         n = takeWhile (\<lambda>c. c \<noteq> CHR ''.'') (Domain e) \<and>
         t = dropWhile (\<lambda>c. c \<noteq> CHR ''.'') (Domain e) \<and>
         Email e = Username e @ ''@'' @ Domain e \<and>
         Domain e = n @ t \<and>
         t = ''.'' @ w)) \<and>
   (\<exists>e'. New ''a@b.co.id'' = Inr e' \<and> DomainName e' = Inr ''b'' \<and>
      DomainTLD e' = Inr ''.co.id'' \<and> DomainTLDWithoutDot e' = Inr ''co.id'')"
proof (intro conjI impI)
  assume k: "construct k = Inr e0" and e: "e = run_setters cs e0"
  let ?p = "\<lambda>c. c \<noteq> CHR ''.''"
  have dot: "CHR ''.'' \<in> set (domain e)"
    unfolding e using k by (rule reachable_has_dot)
  note acc = accessors_of_dot [OF dot]
  from acc(4,5) have "dropWhile ?p (domain e) = ''.'' @ tl (dropWhile ?p (domain e))"
    by (cases "dropWhile ?p (domain e)") auto
  with acc(1,2,3) show "\<exists>n t w. DomainName e = Inr n \<and> DomainTLD e = Inr t \<and>
         DomainTLDWithoutDot e = Inr w \<and>
         n = takeWhile (\<lambda>c. c \<noteq> CHR ''.'') (Domain e) \<and>
         t = dropWhile (\<lambda>c. c \<noteq> CHR ''.'') (Domain e) \<and>
         Email e = Username e @ ''@'' @ Domain e \<and>
         Domain e = n @ t \<and>
         t = ''.'' @ w"
    by (simp add: Email_eq Domain_def)
next
  have "New ''a@b.co.id'' = Inr \<lparr>username = ''a'', domain = ''b.co.id''\<rparr> \<and>
      DomainName \<lparr>username = ''a'', domain = ''b.co.id''\<rparr> = Inr ''b'' \<and>
      DomainTLD \<lparr>username = ''a'', domain = ''b.co.id''\<rparr> = Inr ''.co.id'' \<and>
      DomainTLDWithoutDot \<lparr>username = ''a'', domain = ''b.co.id''\<rparr> = Inr ''co.id''"
    by code_simp
  then show "\<exists>e'. New ''a@b.co.id'' = Inr e' \<and> DomainName e' = Inr ''b'' \<and>
      DomainTLD e' = Inr ''.co.id'' \<and> DomainTLDWithoutDot e' = Inr ''co.id''"
    by blast
qed

theorem decomposition_witness:
  "construct (CallNew ''test.username@test-domain.com'')
     = Inr \<lparr>username = ''test.username'', domain = ''test-domain.com''\<rparr> \<and>
   \<lparr>username = ''test.username'', domain = ''test-domain.co.id''\<rparr>
     = run_setters [CallSetDomainTLD ''.co.id'']
         \<lparr>username = ''test.username'', domain = ''test-domain.com''\<rparr> \<and>
   DomainName \<lparr>username = ''test.username'', domain = ''test-domain.co.id''\<rparr>
     = Inr ''test-domain'' \<and>
   DomainTLD \<lparr>username = ''test.username'', domain = ''test-domain.co.id''\<rparr>
     = Inr ''.co.id'' \<and>
   DomainTLDWithoutDot \<lparr>username = ''test.username'', domain = ''test-domain.co.id''\<rparr>
     = Inr ''co.id''"
proof -
  let ?start = "\<lparr>username = ''test.username'', domain = ''test-domain.com''\<rparr>"
  let ?e = "\<lparr>username = ''test.username'', domain = ''test-domain.co.id''\<rparr>"
  have k: "construct (CallNew ''test.username@test-domain.com'') = Inr ?start"
    by code_simp
  have r: "?e = run_setters [CallSetDomainTLD ''.co.id''] ?start"
    by code_simp
  from decomposition [THEN conjunct1, rule_format, OF k r]
  obtain n t w where "DomainName ?e = Inr n" "DomainTLD ?e = Inr t"
    "DomainTLDWithoutDot ?e = Inr w"
    "n = takeWhile (\<lambda>c. c \<noteq> CHR ''.'') (Domain ?e)"
    "t = dropWhile (\<lambda>c. c \<noteq> CHR ''.'') (Domain ?e)" "t = ''.'' @ w"
    by blast
  then have "DomainName ?e = Inr ''test-domain'' \<and> DomainTLD ?e = Inr ''.co.id'' \<and>
      DomainTLDWithoutDot ?e = Inr ''co.id''"
    by (auto simp: Domain_def)
  with k r show ?thesis by simp
qed

text \<open>
  C6. \<open>NewFromFullParts\<close> puts a \<^verbatim>\<open>.\<close> before the TLD argument exactly when the
  argument does not start with one, and goes on as \<open>NewFromUsernameAndDomain\<close> on the
  joined domain. With username \<^verbatim>\<open>u\<close> and domain name \<^verbatim>\<open>example\<close>, the TLD
  arguments \<^verbatim>\<open>com\<close> and \<^verbatim>\<open>.com\<close> both succeed with the address
  \<^verbatim>\<open>u@example.com\<close>.
\<close>

theorem NewFromFullParts_normalizes:
  "generateDomain n t = n @ (if take 1 t = ''.'' then t else ''.'' @ t) \<and>
   (MatchString domainNameRegex n \<longrightarrow> MatchString domainTLDRegex t \<longrightarrow>
      NewFromFullParts u n t
        = NewFromUsernameAndDomain u (n @ (if take 1 t = ''.'' then t else ''.'' @ t))) \<and>
   (\<exists>e. NewFromFullParts ''u'' ''example'' ''com'' = Inr e \<and> Email e = ''u@example.com'') \<and>
   (\<exists>e. NewFromFullParts ''u'' ''example'' ''.com'' = Inr e \<and> Email e = ''u@example.com'')"
proof -
  have "NewFromFullParts ''u'' ''example'' ''com''
        = Inr \<lparr>username = ''u'', domain = ''example.com''\<rparr> \<and>
      NewFromFullParts ''u'' ''example'' ''.com''
        = Inr \<lparr>username = ''u'', domain = ''example.com''\<rparr> \<and>
      Email \<lparr>username = ''u'', domain = ''example.com''\<rparr> = ''u@example.com''"
    by code_simp
  then have "(\<exists>e. NewFromFullParts ''u'' ''example'' ''com'' = Inr e \<and> Email e = ''u@example.com'') \<and>
   (\<exists>e. NewFromFullParts ''u'' ''example'' ''.com'' = Inr e \<and> Email e = ''u@example.com'')"
    by blast
  then show ?thesis
    by (simp add: NewFromFullParts_def generateDomain_eq)
qed

theorem NewFromFullParts_normalizes_witness:
  "MatchString domainNameRegex ''test-domain'' \<and> MatchString domainTLDRegex ''com'' \<and>
   NewFromFullParts ''test.username'' ''test-domain'' ''com''
     = NewFromUsernameAndDomain ''test.username'' ''test-domain.com''"
proof -
  have n: "MatchString domainNameRegex ''test-domain''" by code_simp
  have t: "MatchString domainTLDRegex ''com''" by code_simp
  from NewFromFullParts_normalizes [of "''test-domain''" "''com''" "''test.username''"] n t
  show ?thesis by simp
qed

text \<open>
  C7. \<open>SetDomainTLD\<close> checks its argument against the TLD pattern and returns the
  error of an invalid TLD when the check fails. When it passes, on a value that a
  constructor and setters produce, the domain becomes the current \<open>DomainName\<close>
  followed by the argument, with a \<^verbatim>\<open>.\<close> put before the argument if it does not
  start with one. On the value built from \<^verbatim>\<open>test.username@test-domain.com\<close>,
  \<open>SetDomainTLD\<close> of \<^verbatim>\<open>.co.id\<close> succeeds and the address is then
  \<^verbatim>\<open>test.username@test-domain.co.id\<close>.
\<close>

theorem SetDomainTLD_contract:
  "(\<not> MatchString domainTLDRegex v \<longrightarrow>
      SetDomainTLD v e = (Some ErrInvalidEmailDomainTLDFormat, e)) \<and>
   (MatchString domainTLDRegex v \<longrightarrow> construct k = Inr e0 \<longrightarrow> e = run_setters cs e0 \<longrightarrow>
      (\<exists>n. DomainName e = Inr n \<and>
         SetDomainTLD v e
           = (None, e\<lparr>domain := n @ (if take 1 v = ''.'' then v else ''.'' @ v)\<rparr>))) \<and>
   (\<exists>e1 e2. New ''test.username@test-domain.com'' = Inr e1 \<and>
      SetDomainTLD ''.co.id'' e1 = (None, e2) \<and>
      Email e2 = ''test.username@test-domain.co.id'')"
proof (intro conjI impI)
  assume "\<not> MatchString domainTLDRegex v"
  then show "SetDomainTLD v e = (Some ErrInvalidEmailDomainTLDFormat, e)"
    by (simp add: SetDomainTLD_def)
next
  assume v: "MatchString domainTLDRegex v" and k: "construct k = Inr e0"
    and e: "e = run_setters cs e0"
  have dot: "CHR ''.'' \<in> set (domain e)"
    unfolding e using k by (rule reachable_has_dot)
  from v accessors_of_dot(1) [OF dot]
  show "\<exists>n. DomainName e = Inr n \<and>
         SetDomainTLD v e
           = (None, e\<lparr>domain := n @ (if take 1 v = ''.'' then v else ''.'' @ v)\<rparr>)"
    by (simp add: SetDomainTLD_def generateDomain_eq)
next
  have "New ''test.username@test-domain.com''
        = Inr \<lparr>username = ''test.username'', domain = ''test-domain.com''\<rparr> \<and>
      SetDomainTLD ''.co.id'' \<lparr>username = ''test.username'', domain = ''test-domain.com''\<rparr>
        = (None, \<lparr>username = ''test.username'', domain = ''test-domain.co.id''\<rparr>) \<and>
      Email \<lparr>username = ''test.username'', domain = ''test-domain.co.id''\<rparr>
        = ''test.username@test-domain.co.id''"
    by code_simp
  then show "\<exists>e1 e2. New ''test.username@test-domain.com'' = Inr e1 \<and>
      SetDomainTLD ''.co.id'' e1 = (None, e2) \<and>
      Email e2 = ''test.username@test-domain.co.id''"
    by blast
qed

theorem SetDomainTLD_contract_witness:
  "\<not> MatchString domainTLDRegex ''!@#@%$!@%'' \<and>
   SetDomainTLD ''!@#@%$!@%'' \<lparr>username = ''john.doe'', domain = ''example.com''\<rparr>
     = (Some ErrInvalidEmailDomainTLDFormat, \<lparr>username = ''john.doe'', domain = ''example.com''\<rparr>) \<and>
   MatchString domainTLDRegex ''org'' \<and>
   construct (CallNew ''john.doe@example.com'')
     = Inr \<lparr>username = ''john.doe'', domain = ''example.com''\<rparr> \<and>
   \<lparr>username = ''john.doe'', domain = ''example.com''\<rparr>
     = run_setters [] \<lparr>username = ''john.doe'', domain = ''example.com''\<rparr> \<and>
   SetDomainTLD ''org'' \<lparr>username = ''john.doe'', domain = ''example.com''\<rparr>
     = (None, \<lparr>username = ''john.doe'', domain = ''example.org''\<rparr>)"
proof -
  let ?e = "\<lparr>username = ''john.doe'', domain = ''example.com''\<rparr>"
  have bad: "\<not> MatchString domainTLDRegex ''!@#@%$!@%''" by code_simp
  have good: "MatchString domainTLDRegex ''org''" by code_simp
  have k: "construct (CallNew ''john.doe@example.com'') = Inr ?e" by code_simp
  have r: "?e = run_setters [] ?e" by simp
  from SetDomainTLD_contract [of "''!@#@%$!@%''" ?e] bad
  have 1: "SetDomainTLD ''!@#@%$!@%'' ?e = (Some ErrInvalidEmailDomainTLDFormat, ?e)"
    by blast
  from SetDomainTLD_contract [of "''org''" ?e "CallNew ''john.doe@example.com''" ?e "[]"]
    good k r
  obtain n where n: "DomainName ?e = Inr n"
    and s: "SetDomainTLD ''org'' ?e = (None, ?e\<lparr>domain := n @ ''.org''\<rparr>)"
    by auto
  have "DomainName ?e = Inr ''example''" by code_simp
  with n s have 2: "SetDomainTLD ''org'' ?e = (None, \<lparr>username = ''john.doe'', domain = ''example.org''\<rparr>)"
    by simp
  from bad good k r 1 2 show ?thesis by blast
qed




text \<open>
  C5. Constructing from the empty string, from \<^verbatim>\<open>plainstring\<close> and from
  \<^verbatim>\<open>a@b\<close> fails, each with the error of an invalid email format.
\<close>

theorem New_rejects:
  "New '''' = Inl ErrInvalidEmailFormat \<and>
   New ''plainstring'' = Inl ErrInvalidEmailFormat \<and>
   New ''a@b'' = Inl ErrInvalidEmailFormat"
  by code_simp

text \<open>
  C9. After a successful constructor call and any setter calls, accepted or refused, the
  stored domain contains a \<^verbatim>\<open>.\<close>: \<open>Index\<close> finds it, \<open>DomainName\<close>, \<open>DomainTLD\<close>
  and \<open>DomainTLDWithoutDot\<close> return a string, and no further setter call slices out of
  range.
\<close>

theorem domain_always_has_dot:
  assumes "construct k = Inr e0"
  shows "CHR ''.'' \<in> set (domain (run_setters cs e0)) \<and>
         0 \<le> Index (domain (run_setters cs e0)) domainSeparator \<and>
         Index (domain (run_setters cs e0)) domainSeparator
           \<le> int (length (domain (run_setters cs e0))) \<and>
         (\<exists>n. DomainName (run_setters cs e0) = Inr n) \<and>
         (\<exists>t. DomainTLD (run_setters cs e0) = Inr t) \<and>
         (\<exists>w. DomainTLDWithoutDot (run_setters cs e0) = Inr w) \<and>
         fst (apply_setter c (run_setters cs e0)) \<noteq> Some PanicOutOfRange"
proof -
  let ?e = "run_setters cs e0"
  have dot: "CHR ''.'' \<in> set (domain ?e)"
    using assms by (rule reachable_has_dot)
  have idx: "0 \<le> Index (domain ?e) domainSeparator \<and>
      Index (domain ?e) domainSeparator \<le> int (length (domain ?e))"
    using Index_present [OF dot] by (simp add: domainSeparator_def)
  have "fst (apply_setter c ?e) \<noteq> Some PanicOutOfRange"
    by (cases c)
      (simp_all add: SetUsername_def SetDomain_def SetDomainName_def SetDomainTLD_def
        accessors_of_dot(1,2) [OF dot])
  with dot idx accessors_of_dot(1,2,3) [OF dot] show ?thesis by simp
qed

theorem domain_always_has_dot_witness:
  "construct (CallNewFromFullParts ''u'' ''example'' ''com'')
     = Inr \<lparr>username = ''u'', domain = ''example.com''\<rparr> \<and>
   CHR ''.'' \<in> set (domain (run_setters [CallSetDomainTLD ''org'', CallSetDomainName ''!'']
     \<lparr>username = ''u'', domain = ''example.com''\<rparr>)) \<and>
   (\<exists>n. DomainName (run_setters [CallSetDomainTLD ''org'', CallSetDomainName ''!'']
     \<lparr>username = ''u'', domain = ''example.com''\<rparr>) = Inr n)"
proof -
  have c: "construct (CallNewFromFullParts ''u'' ''example'' ''com'')
     = Inr \<lparr>username = ''u'', domain = ''example.com''\<rparr>"
    by code_simp
  from domain_always_has_dot [OF c, of "[CallSetDomainTLD ''org'', CallSetDomainName ''!'']"]
    c show ?thesis by blast
qed

text \<open>
  C10. Both part checks of \<open>NewFromUsernameAndDomain\<close> can pass and the construction
  still fail with the error of an invalid email format: the username \<^verbatim>\<open>a!\<close> passes
  the username check, the domain \<^verbatim>\<open>b.com\<close> passes the domain check, the joined
  \<^verbatim>\<open>a!@b.com\<close> fails the full pattern, and the error returned is that of an
  invalid email format, not that of an invalid username.
\<close>

theorem New_rejects_parts:
  "MatchString usernameRegex ''a!'' \<and> MatchString domainRegex ''b.com'' \<and>
   generateEmail ''a!'' ''b.com'' = ''a!@b.com'' \<and>
   \<not> MatchString emailRegex ''a!@b.com'' \<and>
   New ''a!@b.com'' = Inl ErrInvalidEmailFormat \<and>
   NewFromUsernameAndDomain ''a!'' ''b.com'' = Inl ErrInvalidEmailFormat \<and>
   NewFromUsernameAndDomain ''a!'' ''b.com'' \<noteq> Inl ErrInvalidEmailUsernameFormat"
  by code_simp

end
